theory Spec2Isabelle
  imports Main "HOL-Library.Word"
begin

section \<open>The file registry of k6's experimental fs module\<close>

text \<open>
  The development embeds \<^verbatim>\<open>js/modules/k6/experimental/fs/registry.go\<close>: the type
  \<^verbatim>\<open>registry\<close> and its single method \<^verbatim>\<open>open\<close>. The method reads and writes a
  \<^verbatim>\<open>sync.Map\<close>, calls \<^verbatim>\<open>Open\<close> on an \<^verbatim>\<open>afero.Fs\<close> and drains the handle with
  \<^verbatim>\<open>io.ReadAll\<close>. All three effects are made explicit: the map is a field of the
  registry value that is passed in and returned, and the file system calls are recorded in
  an I/O state that is passed in and returned as well.
\<close>

subsection \<open>Data\<close>

type_synonym byte = "8 word"

text \<open>A Go \<^verbatim>\<open>error\<close> value; only its identity matters here, so it is its message.\<close>

datatype error = Error string

text \<open>
  The values of a \<^verbatim>\<open>sync.Map\<close> have the type \<^verbatim>\<open>any\<close>. The registry expects byte
  slices; every other dynamic type is summarised by \<open>OtherValue\<close>.
\<close>

datatype any = ByteSlice "byte list" | OtherValue string

record registry =
  openedFiles :: "string \<rightharpoonup> any"

text \<open>
  What one call of \<^verbatim>\<open>Read\<close> on an opened file gives: some bytes and no error, or some
  bytes with an error other than \<^verbatim>\<open>io.EOF\<close>. A file is the list of the results of its
  successive reads; after the last one the file reports \<^verbatim>\<open>io.EOF\<close>.
\<close>

datatype read_step = Chunk "byte list" | Failure "byte list" error

type_synonym stream = "read_step list"

text \<open>
  An \<^verbatim>\<open>afero.Fs\<close>, as far as \<^verbatim>\<open>open\<close> uses it: the method \<^verbatim>\<open>Open\<close>, which fails with an
  error or gives a readable file.
\<close>

type_synonym Fs = "string \<Rightarrow> error + stream"

record File =
  fd :: nat
  pending :: stream

datatype fs_event = EvOpen string | EvReadAll nat | EvClose nat

text \<open>
  The I/O state: every operation performed on a file system so far, the descriptors that
  are open, and the next free descriptor.
\<close>

record io_state =
  events :: "fs_event list"
  open_fds :: "nat list"
  next_fd :: nat

text \<open>A Go call either returns or panics.\<close>

datatype 'a outcome = Panic string | Return 'a

subsection \<open>The operations of the file system and of package io\<close>

definition Fs_Open :: "Fs \<Rightarrow> string \<Rightarrow> io_state \<Rightarrow> (error + File) \<times> io_state" where
  "Fs_Open fromFs name w =
     (let w1 = w\<lparr>events := events w @ [EvOpen name]\<rparr>
      in case fromFs name of
           Inl err \<Rightarrow> (Inl err, w1)
         | Inr rs \<Rightarrow>
             (Inr \<lparr>fd = next_fd w, pending = rs\<rparr>,
              w1\<lparr>open_fds := next_fd w # open_fds w, next_fd := Suc (next_fd w)\<rparr>))"

text \<open>
  Closing a file releases its descriptor. The method \<^verbatim>\<open>open\<close> of the registry has no call
  of it.
\<close>

definition File_Close :: "File \<Rightarrow> io_state \<Rightarrow> io_state" where
  "File_Close f w =
     w\<lparr>events := events w @ [EvClose (fd f)], open_fds := removeAll (fd f) (open_fds w)\<rparr>"

text \<open>
  \<^verbatim>\<open>io.ReadAll\<close> reads until \<^verbatim>\<open>io.EOF\<close> or an error. It returns the bytes read so far in
  both cases, with a nil error at \<^verbatim>\<open>io.EOF\<close>.
\<close>

fun ReadAll_loop :: "byte list \<Rightarrow> stream \<Rightarrow> byte list \<times> error option" where
  "ReadAll_loop b [] = (b, None)"
| "ReadAll_loop b (Chunk bs # rs) = ReadAll_loop (b @ bs) rs"
| "ReadAll_loop b (Failure bs err # rs) = (b @ bs, Some err)"

definition ReadAll :: "File \<Rightarrow> io_state \<Rightarrow> (byte list \<times> error option) \<times> io_state" where
  "ReadAll f w = (ReadAll_loop [] (pending f), w\<lparr>events := events w @ [EvReadAll (fd f)]\<rparr>)"

subsection \<open>Path cleaning\<close>

text \<open>
  Modelled from the spec: \<^verbatim>\<open>filepath.Clean\<close> belongs to Go's standard library and is not
  part of the repository. The specification asks for the standard syntactic cleaning,
  which resolves redundant separators and the segments \<^verbatim>\<open>.\<close> and \<^verbatim>\<open>..\<close>. The definition
  follows the library's algorithm for paths separated by \<^verbatim>\<open>/\<close> without a volume name:
  \<open>out\<close> is the buffer written so far, \<open>dotdot\<close> the length of the prefix that a \<^verbatim>\<open>..\<close>
  segment must not remove, and the last argument the part of the path still to be read.
  The function \<open>backtrack\<close> is the inner loop that removes the last element written: it
  drops bytes from the end of the buffer until the byte dropped last is a separator or
  the buffer is down to \<open>dotdot\<close>.
\<close>

function backtrack :: "nat \<Rightarrow> string \<Rightarrow> char \<Rightarrow> string" where
  "backtrack dotdot buf c =
     (if length buf > dotdot \<and> c \<noteq> CHR ''/'' then backtrack dotdot (butlast buf) (last buf)
      else buf)"
  by pat_completeness auto
termination
  by (relation "measure (\<lambda>(dotdot, buf, c). length buf)") auto

declare backtrack.simps [simp del]

text \<open>
  Modelled from the spec: the loop of \<^verbatim>\<open>filepath.Clean\<close>, which is not part of the
  repository. Its cases, in the library's order: an empty element, a \<^verbatim>\<open>.\<close> element, a
  \<^verbatim>\<open>..\<close> element (which removes the last element written, or is kept at the start of a
  path that is not rooted), and a real element, copied up to the next separator.
\<close>

function Clean_loop :: "bool \<Rightarrow> nat \<Rightarrow> string \<Rightarrow> string \<Rightarrow> string" where
  "Clean_loop rooted dotdot out [] = out"
| "Clean_loop rooted dotdot out (c # cs) =
     (if c = CHR ''/'' then Clean_loop rooted dotdot out cs
      else if c = CHR ''.'' \<and> (cs = [] \<or> hd cs = CHR ''/'') then Clean_loop rooted dotdot out cs
      else if c = CHR ''.'' \<and> take 1 cs = ''.'' \<and> (drop 1 cs = [] \<or> hd (drop 1 cs) = CHR ''/'')
      then
        (if length out > dotdot
         then Clean_loop rooted dotdot (backtrack dotdot (butlast out) (last out)) (drop 1 cs)
         else if \<not> rooted
         then (let out' = (if out \<noteq> [] then out @ ''/'' else out) @ ''..''
               in Clean_loop rooted (length out') out' (drop 1 cs))
         else Clean_loop rooted dotdot out (drop 1 cs))
      else
        (let out' = (if rooted \<and> length out \<noteq> 1 \<or> \<not> rooted \<and> length out \<noteq> 0
                     then out @ ''/'' else out)
         in Clean_loop rooted dotdot (out' @ c # takeWhile (\<lambda>x. x \<noteq> CHR ''/'') cs)
              (dropWhile (\<lambda>x. x \<noteq> CHR ''/'') cs)))"
  by pat_completeness auto
termination
  by (relation "measure (\<lambda>(rooted, dotdot, out, path). length path)")
     (auto simp: less_Suc_eq_le length_dropWhile_le)

text \<open>
  Modelled from the spec: the entry of \<^verbatim>\<open>filepath.Clean\<close>, which is not part of the
  repository. The empty path and an empty result both become \<^verbatim>\<open>.\<close>.
\<close>

definition Clean :: "string \<Rightarrow> string" where
  "Clean path =
     (if path = [] then ''.''
      else
        (let rooted = (hd path = CHR ''/'');
             out = (if rooted then Clean_loop True 1 ''/'' (tl path)
                    else Clean_loop False 0 [] path)
         in if out = [] then ''.'' else out))"

subsection \<open>The method open\<close>

type_synonym open_result = "(byte list \<times> error option) outcome"

text \<open>
  A nil byte slice is the empty list. The panic carries the message of the error that
  the source builds with \<^verbatim>\<open>fmt.Errorf\<close>.
\<close>

definition registry_open ::
  "string \<Rightarrow> Fs \<Rightarrow> registry \<Rightarrow> io_state \<Rightarrow> open_result \<times> registry \<times> io_state" where
  "registry_open name fromFs fr w =
     (let filename = Clean name
      in case openedFiles fr filename of
           Some f \<Rightarrow>
             (case f of
                ByteSlice data \<Rightarrow> (Return (data, None), fr, w)
              | OtherValue t \<Rightarrow>
                  (Panic (''registry's file '' @ filename @ '' is not stored as a byte slice''),
                   fr, w))
         | None \<Rightarrow>
             (case Fs_Open fromFs filename w of
                (Inl err, w1) \<Rightarrow> (Return ([], Some err), fr, w1)
              | (Inr f, w1) \<Rightarrow>
                  (case ReadAll f w1 of
                     ((data, Some err), w2) \<Rightarrow> (Return ([], Some err), fr, w2)
                   | ((data, None), w2) \<Rightarrow>
                       (Return (data, None),
                        fr\<lparr>openedFiles := (openedFiles fr)(filename \<mapsto> ByteSlice data)\<rparr>,
                        w2))))"

subsection \<open>Sequences of calls and fixtures\<close>

text \<open>
  A caller that invokes \<^verbatim>\<open>open\<close> several times, one call after the other, each with its
  own path and file system. A panic leaves the registry as it was, so the calls after a
  recovered panic see the same registry.
\<close>

fun run_calls ::
  "(string \<times> Fs) list \<Rightarrow> registry \<Rightarrow> io_state \<Rightarrow> open_result list \<times> registry \<times> io_state" where
  "run_calls [] fr w = ([], fr, w)"
| "run_calls ((name, fromFs) # cs) fr w =
     (case registry_open name fromFs fr w of
        (r, fr1, w1) \<Rightarrow> (case run_calls cs fr1 w1 of (rs, fr2, w2) \<Rightarrow> (r # rs, fr2, w2)))"

text \<open>The zero value of the struct, which holds an empty \<^verbatim>\<open>sync.Map\<close>.\<close>

definition new_registry :: registry where
  "new_registry = \<lparr>openedFiles = Map.empty\<rparr>"

definition initial_io :: io_state where
  "initial_io = \<lparr>events = [], open_fds = [], next_fd = 0\<rparr>"

text \<open>An in-memory file system given by the list of its files.\<close>

definition Fs_of :: "(string \<times> stream) list \<Rightarrow> Fs" where
  "Fs_of files name =
     (case map_of files name of
        None \<Rightarrow> Inl (Error ''file does not exist'')
      | Some rs \<Rightarrow> Inr rs)"

text \<open>How often \<^verbatim>\<open>Open\<close> was called with a given path.\<close>

definition opens_of :: "string \<Rightarrow> io_state \<Rightarrow> nat" where
  "opens_of name w = count_list (events w) (EvOpen name)"

section \<open>Properties of open\<close>

subsection \<open>The three ways through the method\<close>

lemma open_hit:
  assumes "openedFiles fr (Clean p) = Some (ByteSlice d)"
  shows "registry_open p fromFs fr w = (Return (d, None), fr, w)"
  using assms by (simp add: registry_open_def Let_def)

lemma open_hit_other:
  assumes "openedFiles fr (Clean p) = Some (OtherValue t)"
  shows "registry_open p fromFs fr w =
           (Panic (''registry's file '' @ Clean p @ '' is not stored as a byte slice''), fr, w)"
  using assms by (simp add: registry_open_def Let_def)

lemma open_miss_open_failed:
  assumes "openedFiles fr (Clean p) = None" and "fromFs (Clean p) = Inl err"
  shows "registry_open p fromFs fr w =
           (Return ([], Some err), fr, w\<lparr>events := events w @ [EvOpen (Clean p)]\<rparr>)"
  using assms by (simp add: registry_open_def Fs_Open_def Let_def)

lemma open_miss_read_failed:
  assumes "openedFiles fr (Clean p) = None" and "fromFs (Clean p) = Inr rs"
    and "ReadAll_loop [] rs = (b, Some err)"
  shows "registry_open p fromFs fr w =
           (Return ([], Some err), fr,
            w\<lparr>events := events w @ [EvOpen (Clean p), EvReadAll (next_fd w)],
              open_fds := next_fd w # open_fds w, next_fd := Suc (next_fd w)\<rparr>)"
  using assms by (simp add: registry_open_def Fs_Open_def ReadAll_def Let_def)

lemma open_miss_success:
  assumes "openedFiles fr (Clean p) = None" and "fromFs (Clean p) = Inr rs"
    and "ReadAll_loop [] rs = (d, None)"
  shows "registry_open p fromFs fr w =
           (Return (d, None),
            fr\<lparr>openedFiles := (openedFiles fr)(Clean p \<mapsto> ByteSlice d)\<rparr>,
            w\<lparr>events := events w @ [EvOpen (Clean p), EvReadAll (next_fd w)],
              open_fds := next_fd w # open_fds w, next_fd := Suc (next_fd w)\<rparr>)"
  using assms by (simp add: registry_open_def Fs_Open_def ReadAll_def Let_def)

text \<open>Every call goes one of the five ways.\<close>

lemma open_cases:
  obtains (hit) d where "openedFiles fr (Clean p) = Some (ByteSlice d)"
  | (other) t where "openedFiles fr (Clean p) = Some (OtherValue t)"
  | (open_failed) err where "openedFiles fr (Clean p) = None" and "fromFs (Clean p) = Inl err"
  | (read_failed) rs b err where "openedFiles fr (Clean p) = None"
      and "fromFs (Clean p) = Inr rs" and "ReadAll_loop [] rs = (b, Some err)"
  | (success) rs d where "openedFiles fr (Clean p) = None"
      and "fromFs (Clean p) = Inr rs" and "ReadAll_loop [] rs = (d, None)"
proof (cases "openedFiles fr (Clean p)")
  case None
  show ?thesis
  proof (cases "fromFs (Clean p)")
    case (Inl err)
    with None show ?thesis by (rule open_failed)
  next
    case (Inr rs)
    obtain b e where r: "ReadAll_loop [] rs = (b, e)" by (cases "ReadAll_loop [] rs")
    show ?thesis
    proof (cases e)
      case None' : None
      with None Inr r show ?thesis by (auto intro: success)
    next
      case (Some err)
      with None Inr r show ?thesis by (auto intro: read_failed)
    qed
  qed
next
  case (Some v)
  then show ?thesis by (cases v) (auto intro: hit other)
qed

subsection \<open>What one call does to the registry and to the file system\<close>

lemma open_success_cached:
  assumes "registry_open p fromFs fr w = (Return (d, None), fr1, w1)"
  shows "openedFiles fr1 (Clean p) = Some (ByteSlice d)"
proof (cases rule: open_cases [where fr = fr and p = p and fromFs = fromFs])
  case (hit d0)
  with assms show ?thesis by (simp add: open_hit)
next
  case (other t)
  with assms show ?thesis by (simp add: open_hit_other)
next
  case (open_failed err)
  with assms show ?thesis by (simp add: open_miss_open_failed)
next
  case (read_failed rs b err)
  with assms show ?thesis by (simp add: open_miss_read_failed)
next
  case (success rs d0)
  with assms show ?thesis by (auto simp: open_miss_success)
qed

lemma open_keeps_entries:
  assumes "openedFiles fr k = Some v"
  shows "openedFiles (fst (snd (registry_open p fromFs fr w))) k = Some v"
proof (cases rule: open_cases [where fr = fr and p = p and fromFs = fromFs])
  case (success rs d0)
  with assms have "k \<noteq> Clean p" by auto
  with assms success show ?thesis by (simp add: open_miss_success)
qed (simp_all add: assms open_hit open_hit_other open_miss_open_failed open_miss_read_failed)

lemma open_other_keys:
  assumes "k \<noteq> Clean p"
  shows "openedFiles (fst (snd (registry_open p fromFs fr w))) k = openedFiles fr k"
  by (cases rule: open_cases [where fr = fr and p = p and fromFs = fromFs])
     (simp_all add: assms open_hit open_hit_other open_miss_open_failed open_miss_read_failed
        open_miss_success)

lemma open_opens_of:
  "opens_of q (snd (snd (registry_open p fromFs fr w))) =
     opens_of q w + (if q = Clean p \<and> openedFiles fr (Clean p) = None then 1 else 0)"
  by (cases rule: open_cases [where fr = fr and p = p and fromFs = fromFs])
     (simp_all add: opens_of_def open_hit open_hit_other open_miss_open_failed
        open_miss_read_failed open_miss_success)

lemma run_calls_hit:
  assumes "openedFiles fr (Clean p) = Some (ByteSlice d)"
  shows "run_calls (replicate n (p, fromFs)) fr w = (replicate n (Return (d, None)), fr, w)"
  using assms by (induction n) (simp_all add: open_hit)

subsection \<open>Read-through\<close>

text \<open>
  Claim C1. When the cleaned path is a key of the cache that maps to content, \<open>open\<close>
  returns that content with a nil error and leaves the registry and the I/O state as they
  were, so it performs no operation on the source. When the cleaned path is not a key, the
  source opens it and the read reaches the end of the file, \<open>open\<close> returns the bytes read
  with a nil error and the registry maps the cleaned path to these bytes.
\<close>

theorem open_read_through:
  "(openedFiles fr (Clean p) = Some (ByteSlice d) \<longrightarrow>
      registry_open p fromFs fr w = (Return (d, None), fr, w)) \<and>
   (openedFiles fr (Clean p) = None \<and> fromFs (Clean p) = Inr rs \<and>
      ReadAll_loop [] rs = (d', None) \<longrightarrow>
      fst (registry_open p fromFs fr w) = Return (d', None) \<and>
      fst (snd (registry_open p fromFs fr w)) =
        fr\<lparr>openedFiles := (openedFiles fr)(Clean p \<mapsto> ByteSlice d')\<rparr>)"
  by (simp add: open_hit open_miss_success)

theorem open_read_through_witness:
  "registry_open ''a/./b'' (Fs_of []) \<lparr>openedFiles = [''a/b'' \<mapsto> ByteSlice [1, 2]]\<rparr> initial_io =
     (Return ([1, 2], None), \<lparr>openedFiles = [''a/b'' \<mapsto> ByteSlice [1, 2]]\<rparr>, initial_io) \<and>
   fst (registry_open ''x//y'' (Fs_of [(''x/y'', [Chunk [7], Chunk [8, 9]])]) new_registry
      initial_io) = Return ([7, 8, 9], None) \<and>
   fst (snd (registry_open ''x//y'' (Fs_of [(''x/y'', [Chunk [7], Chunk [8, 9]])]) new_registry
      initial_io)) = \<lparr>openedFiles = [''x/y'' \<mapsto> ByteSlice [7, 8, 9]]\<rparr>"
  using open_read_through [where fr = "\<lparr>openedFiles = [''a/b'' \<mapsto> ByteSlice [1, 2]]\<rparr>"
      and p = "''a/./b''" and d = "[1, 2]" and fromFs = "Fs_of []" and w = initial_io]
    open_read_through [where fr = new_registry and p = "''x//y''" and d' = "[7, 8, 9]"
      and fromFs = "Fs_of [(''x/y'', [Chunk [7], Chunk [8, 9]])]"
      and rs = "[Chunk [7], Chunk [8, 9]]" and w = initial_io]
  by (simp add: Clean_def Fs_of_def new_registry_def)

subsection \<open>Repeated calls\<close>

text \<open>
  Claim C2, as stated, asks that any number of calls for one path queries the source at
  most once. Two calls for a path that the source cannot open query it twice.
\<close>

theorem repeated_open_counterexample:
  "\<not> opens_of ''missing.txt''
        (snd (snd (run_calls [(''missing.txt'', Fs_of []), (''missing.txt'', Fs_of [])]
           new_registry initial_io))) \<le> 1"
  by (simp add: open_opens_of new_registry_def initial_io_def opens_of_def Clean_def
      open_miss_open_failed Fs_of_def split: prod.splits)

text \<open>
  Claim C2, amended. When the first of \<open>n\<close> calls in a row for the path \<open>p\<close> succeeds,
  every call returns the content that the first one returned, with a nil error, and the
  source is asked to open \<open>p\<close> at most once over all the calls.
\<close>

theorem open_repeated:
  assumes "run_calls (replicate n (p, fromFs)) fr w = (rs, fr', w')"
    and "take 1 rs = [Return (d, None)]"
  shows "rs = replicate n (Return (d, None)) \<and> opens_of (Clean p) w' \<le> Suc (opens_of (Clean p) w)"
proof (cases n)
  case 0
  with assms show ?thesis by simp
next
  case (Suc m)
  obtain r fr1 w1 where o: "registry_open p fromFs fr w = (r, fr1, w1)"
    by (cases "registry_open p fromFs fr w")
  obtain rs2 fr2 w2 where t: "run_calls (replicate m (p, fromFs)) fr1 w1 = (rs2, fr2, w2)"
    by (cases "run_calls (replicate m (p, fromFs)) fr1 w1")
  from assms(1) Suc o t have rs: "rs = r # rs2" and w': "w' = w2" by simp_all
  with assms(2) have r: "r = Return (d, None)" by simp
  with o have "openedFiles fr1 (Clean p) = Some (ByteSlice d)"
    by (simp add: open_success_cached)
  then have "run_calls (replicate m (p, fromFs)) fr1 w1 =
      (replicate m (Return (d, None)), fr1, w1)"
    by (rule run_calls_hit)
  with t have rs2: "rs2 = replicate m (Return (d, None))" and w2: "w2 = w1" by simp_all
  have "opens_of (Clean p) w1 \<le> Suc (opens_of (Clean p) w)"
    using open_opens_of [of "Clean p" p fromFs fr w] o by simp
  with rs r rs2 w2 w' Suc show ?thesis by simp
qed

theorem open_repeated_witness:
  "run_calls (replicate 3 (''config.json'', Fs_of [(''config.json'', [Chunk [1, 2]])]))
      new_registry initial_io =
     (replicate 3 (Return ([1, 2], None)),
      \<lparr>openedFiles = [''config.json'' \<mapsto> ByteSlice [1, 2]]\<rparr>,
      \<lparr>events = [EvOpen ''config.json'', EvReadAll 0], open_fds = [0], next_fd = 1\<rparr>) \<and>
   opens_of ''config.json'' \<lparr>events = [EvOpen ''config.json'', EvReadAll 0], open_fds = [0],
      next_fd = 1\<rparr> \<le> Suc (opens_of ''config.json'' initial_io)"
proof -
  have c: "Clean ''config.json'' = ''config.json''"
    by (simp add: Clean_def)
  have run: "run_calls (replicate 3 (''config.json'', Fs_of [(''config.json'', [Chunk [1, 2]])]))
      new_registry initial_io =
     (replicate 3 (Return ([1, 2], None)),
      \<lparr>openedFiles = [''config.json'' \<mapsto> ByteSlice [1, 2]]\<rparr>,
      \<lparr>events = [EvOpen ''config.json'', EvReadAll 0], open_fds = [0], next_fd = 1\<rparr>)"
    by (simp add: numeral_3_eq_3 registry_open_def Fs_Open_def ReadAll_def Fs_of_def c
        new_registry_def initial_io_def Let_def)
  from open_repeated [OF run] c show ?thesis using run by simp
qed

subsection \<open>Failures\<close>

text \<open>
  Claim C3. When \<open>open\<close> returns an error, the error is the one that the source gave when
  it opened the cleaned path, or the one that ended the read; the content returned with it
  is nil; the registry is the one from before the call and holds no entry for the cleaned
  path. A later call with a source that opens the path and reads it to its end therefore
  asks the source again and returns what it read.
\<close>

theorem open_failure_not_cached:
  assumes "registry_open p fromFs fr w = (Return (d, Some err), fr1, w1)"
  shows "d = [] \<and> fr1 = fr \<and> openedFiles fr1 (Clean p) = None \<and>
         (fromFs (Clean p) = Inl err \<or>
          (\<exists>rs b. fromFs (Clean p) = Inr rs \<and> ReadAll_loop [] rs = (b, Some err))) \<and>
         (fixed (Clean p) = Inr rs' \<and> ReadAll_loop [] rs' = (d', None) \<longrightarrow>
            fst (registry_open p fixed fr1 w1) = Return (d', None) \<and>
            opens_of (Clean p) (snd (snd (registry_open p fixed fr1 w1))) =
              Suc (opens_of (Clean p) w1))"
proof -
  have main: "d = [] \<and> fr1 = fr \<and> openedFiles fr (Clean p) = None \<and>
         (fromFs (Clean p) = Inl err \<or>
          (\<exists>rs b. fromFs (Clean p) = Inr rs \<and> ReadAll_loop [] rs = (b, Some err)))"
  proof (cases rule: open_cases [where fr = fr and p = p and fromFs = fromFs])
    case (hit d0)
    with assms show ?thesis by (simp add: open_hit)
  next
    case (other t)
    with assms show ?thesis by (simp add: open_hit_other)
  next
    case (open_failed e)
    with assms show ?thesis by (simp add: open_miss_open_failed)
  next
    case (read_failed rs b e)
    with assms show ?thesis by (simp add: open_miss_read_failed)
  next
    case (success rs d0)
    with assms show ?thesis by (simp add: open_miss_success)
  qed
  then have miss: "openedFiles fr1 (Clean p) = None" by simp
  have "fst (registry_open p fixed fr1 w1) = Return (d', None) \<and>
        opens_of (Clean p) (snd (snd (registry_open p fixed fr1 w1))) = Suc (opens_of (Clean p) w1)"
    if "fixed (Clean p) = Inr rs'" and "ReadAll_loop [] rs' = (d', None)"
    using open_miss_success [of fr1 p fixed rs' d' w1] open_opens_of [of "Clean p" p fixed fr1 w1]
      miss that
    by simp
  with main show ?thesis by simp
qed

theorem open_failure_not_cached_witness:
  "registry_open ''missing.txt'' (Fs_of []) new_registry initial_io =
     (Return ([], Some (Error ''file does not exist'')), new_registry,
      \<lparr>events = [EvOpen ''missing.txt''], open_fds = [], next_fd = 0\<rparr>) \<and>
   fst (registry_open ''missing.txt'' (Fs_of [(''missing.txt'', [Chunk [5]])]) new_registry
      \<lparr>events = [EvOpen ''missing.txt''], open_fds = [], next_fd = 0\<rparr>) = Return ([5], None) \<and>
   registry_open ''torn.bin'' (Fs_of [(''torn.bin'', [Chunk [1], Failure [2] (Error ''input/output error'')])])
      new_registry initial_io =
     (Return ([], Some (Error ''input/output error'')), new_registry,
      \<lparr>events = [EvOpen ''torn.bin'', EvReadAll 0], open_fds = [0], next_fd = 1\<rparr>) \<and>
   fst (registry_open ''torn.bin'' (Fs_of [(''torn.bin'', [Chunk [1], Chunk [2, 3]])]) new_registry
      \<lparr>events = [EvOpen ''torn.bin'', EvReadAll 0], open_fds = [0], next_fd = 1\<rparr>) =
     Return ([1, 2, 3], None)"
proof -
  have c: "Clean ''missing.txt'' = ''missing.txt''" "Clean ''torn.bin'' = ''torn.bin''"
    by (simp_all add: Clean_def)
  have f1: "registry_open ''missing.txt'' (Fs_of []) new_registry initial_io =
     (Return ([], Some (Error ''file does not exist'')), new_registry,
      \<lparr>events = [EvOpen ''missing.txt''], open_fds = [], next_fd = 0\<rparr>)"
    by (simp add: registry_open_def Fs_Open_def Fs_of_def c new_registry_def initial_io_def Let_def)
  have f2: "registry_open ''torn.bin''
      (Fs_of [(''torn.bin'', [Chunk [1], Failure [2] (Error ''input/output error'')])])
      new_registry initial_io =
     (Return ([], Some (Error ''input/output error'')), new_registry,
      \<lparr>events = [EvOpen ''torn.bin'', EvReadAll 0], open_fds = [0], next_fd = 1\<rparr>)"
    by (simp add: registry_open_def Fs_Open_def ReadAll_def Fs_of_def c new_registry_def
        initial_io_def Let_def)
  from open_failure_not_cached [where fixed = "Fs_of [(''missing.txt'', [Chunk [5]])]"
      and rs' = "[Chunk [5]]" and d' = "[5]", OF f1]
    open_failure_not_cached [where fixed = "Fs_of [(''torn.bin'', [Chunk [1], Chunk [2, 3]])]"
      and rs' = "[Chunk [1], Chunk [2, 3]]" and d' = "[1, 2, 3]", OF f2]
    f1 f2 c
  show ?thesis by (simp add: Fs_of_def)
qed

subsection \<open>Equivalent paths\<close>

text \<open>
  Claim C4. Two paths with the same cleaned form are the same argument to \<open>open\<close>: the
  calls agree on every registry and I/O state. The cleaned form is the only key of the cache
  that a call can change and the only path that it can ask the source to open. After one
  of the paths has been opened with success, a call for the other one finds the entry and
  returns its content without any operation on the source, whatever the source is.
\<close>

theorem open_equivalent_paths:
  assumes "Clean p = Clean q"
  shows "registry_open p fromFs fr w = registry_open q fromFs fr w \<and>
         (\<forall>k. k \<noteq> Clean q \<longrightarrow>
            openedFiles (fst (snd (registry_open p fromFs fr w))) k = openedFiles fr k \<and>
            opens_of k (snd (snd (registry_open p fromFs fr w))) = opens_of k w) \<and>
         (registry_open p fromFs fr w = (Return (d, None), fr', w') \<longrightarrow>
            openedFiles fr' (Clean q) = Some (ByteSlice d) \<and>
            registry_open q fromFs' fr' w' = (Return (d, None), fr', w'))"
proof -
  have same: "registry_open p fromFs fr w = registry_open q fromFs fr w"
    using assms by (simp add: registry_open_def)
  have frame: "openedFiles (fst (snd (registry_open p fromFs fr w))) k = openedFiles fr k \<and>
      opens_of k (snd (snd (registry_open p fromFs fr w))) = opens_of k w" if "k \<noteq> Clean q" for k
    using that assms open_other_keys [of k p fromFs fr w] open_opens_of [of k p fromFs fr w]
    by simp
  have second: "openedFiles fr' (Clean q) = Some (ByteSlice d) \<and>
      registry_open q fromFs' fr' w' = (Return (d, None), fr', w')"
    if "registry_open p fromFs fr w = (Return (d, None), fr', w')"
  proof -
    from that have "openedFiles fr' (Clean p) = Some (ByteSlice d)"
      by (rule open_success_cached)
    with assms have "openedFiles fr' (Clean q) = Some (ByteSlice d)" by simp
    then show ?thesis by (simp add: open_hit)
  qed
  from same frame second show ?thesis by blast
qed

theorem open_equivalent_paths_witness:
  "Clean ''a/./b'' = Clean ''a/b'' \<and>
   registry_open ''a/./b'' (Fs_of [(''a/b'', [Chunk [1, 2]])]) new_registry initial_io =
     (Return ([1, 2], None), \<lparr>openedFiles = [''a/b'' \<mapsto> ByteSlice [1, 2]]\<rparr>,
      \<lparr>events = [EvOpen ''a/b'', EvReadAll 0], open_fds = [0], next_fd = 1\<rparr>) \<and>
   registry_open ''a/b'' (Fs_of []) \<lparr>openedFiles = [''a/b'' \<mapsto> ByteSlice [1, 2]]\<rparr>
      \<lparr>events = [EvOpen ''a/b'', EvReadAll 0], open_fds = [0], next_fd = 1\<rparr> =
     (Return ([1, 2], None), \<lparr>openedFiles = [''a/b'' \<mapsto> ByteSlice [1, 2]]\<rparr>,
      \<lparr>events = [EvOpen ''a/b'', EvReadAll 0], open_fds = [0], next_fd = 1\<rparr>) \<and>
   opens_of ''a/./b'' (snd (snd (registry_open ''a/./b'' (Fs_of [(''a/b'', [Chunk [1, 2]])])
      new_registry initial_io))) = 0"
proof -
  have c: "Clean ''a/./b'' = Clean ''a/b''" "Clean ''a/b'' = ''a/b''"
    by (simp_all add: Clean_def)
  have f: "registry_open ''a/./b'' (Fs_of [(''a/b'', [Chunk [1, 2]])]) new_registry initial_io =
     (Return ([1, 2], None), \<lparr>openedFiles = [''a/b'' \<mapsto> ByteSlice [1, 2]]\<rparr>,
      \<lparr>events = [EvOpen ''a/b'', EvReadAll 0], open_fds = [0], next_fd = 1\<rparr>)"
    by (simp add: registry_open_def Fs_Open_def ReadAll_def Fs_of_def c new_registry_def
        initial_io_def Let_def)
  note t = open_equivalent_paths [where fromFs = "Fs_of [(''a/b'', [Chunk [1, 2]])]"
      and fr = new_registry and w = initial_io and fromFs' = "Fs_of []" and d = "[1, 2]"
      and fr' = "\<lparr>openedFiles = [''a/b'' \<mapsto> ByteSlice [1, 2]]\<rparr>"
      and w' = "\<lparr>events = [EvOpen ''a/b'', EvReadAll 0], open_fds = [0], next_fd = 1\<rparr>",
      OF c(1)]
  from t f have hit: "registry_open ''a/b'' (Fs_of []) \<lparr>openedFiles = [''a/b'' \<mapsto> ByteSlice [1, 2]]\<rparr>
      \<lparr>events = [EvOpen ''a/b'', EvReadAll 0], open_fds = [0], next_fd = 1\<rparr> =
     (Return ([1, 2], None), \<lparr>openedFiles = [''a/b'' \<mapsto> ByteSlice [1, 2]]\<rparr>,
      \<lparr>events = [EvOpen ''a/b'', EvReadAll 0], open_fds = [0], next_fd = 1\<rparr>)"
    by blast
  from t have "''a/./b'' \<noteq> Clean ''a/b'' \<longrightarrow>
      opens_of ''a/./b'' (snd (snd (registry_open ''a/./b'' (Fs_of [(''a/b'', [Chunk [1, 2]])])
        new_registry initial_io))) = opens_of ''a/./b'' initial_io"
    by blast
  then have other: "opens_of ''a/./b'' (snd (snd (registry_open ''a/./b''
      (Fs_of [(''a/b'', [Chunk [1, 2]])]) new_registry initial_io))) = 0"
    by (simp add: c(2) opens_of_def initial_io_def)
  from c(1) f hit other show ?thesis by blast
qed

subsection \<open>Write-once entries\<close>

text \<open>
  Claim C5. Take any registry in which a key is present, and any sequence of calls of
  \<open>open\<close> made one after the other, with any paths and any sources. The registry after the
  calls maps the key to the value it had: no call changes or removes an entry.
\<close>

theorem registry_write_once:
  assumes "openedFiles fr k = Some v"
  shows "openedFiles (fst (snd (run_calls cs fr w))) k = Some v"
  using assms
proof (induction cs arbitrary: fr w)
  case Nil
  then show ?case by simp
next
  case (Cons c cs)
  obtain name fromFs where c: "c = (name, fromFs)" by (cases c)
  obtain r fr1 w1 where o: "registry_open name fromFs fr w = (r, fr1, w1)"
    by (cases "registry_open name fromFs fr w")
  from Cons.prems have "openedFiles fr1 k = Some v"
    using open_keeps_entries [of fr k v name fromFs w] o by simp
  then have "openedFiles (fst (snd (run_calls cs fr1 w1))) k = Some v"
    by (rule Cons.IH)
  with c o show ?case by (auto split: prod.splits)
qed

theorem registry_write_once_witness:
  "openedFiles \<lparr>openedFiles = [''config.json'' \<mapsto> ByteSlice [1]]\<rparr> ''config.json'' =
     Some (ByteSlice [1]) \<and>
   openedFiles (fst (snd (run_calls
      [(''config.json'', Fs_of [(''config.json'', [Chunk [2]])]),
       (''other.txt'', Fs_of [(''other.txt'', [Chunk [3]])]),
       (''./config.json'', Fs_of [])]
      \<lparr>openedFiles = [''config.json'' \<mapsto> ByteSlice [1]]\<rparr> initial_io))) ''config.json'' =
     Some (ByteSlice [1])"
proof -
  have h: "openedFiles \<lparr>openedFiles = [''config.json'' \<mapsto> ByteSlice [1]]\<rparr> ''config.json'' =
     Some (ByteSlice [1])"
    by simp
  from registry_write_once [OF h] h show ?thesis by blast
qed

subsection \<open>File handles\<close>

lemma close_releases: "fd f \<notin> set (open_fds (File_Close f w))"
  by (simp add: File_Close_def)

lemma open_never_closes:
  "set (open_fds w) \<subseteq> set (open_fds (snd (snd (registry_open p fromFs fr w)))) \<and>
   (openedFiles fr (Clean p) = None \<and> fromFs (Clean p) = Inr rs \<longrightarrow>
      next_fd w \<in> set (open_fds (snd (snd (registry_open p fromFs fr w)))))"
  by (cases rule: open_cases [where fr = fr and p = p and fromFs = fromFs])
     (auto simp: open_hit open_hit_other open_miss_open_failed open_miss_read_failed
        open_miss_success)

text \<open>
  Claim C6 asks that a handle obtained from the source is closed before \<open>open\<close> returns.
  The method never calls \<^verbatim>\<open>Close\<close>. After a call that reads a file with success, and after
  a call whose read fails, the descriptor that the source handed out is still open and no
  close was performed on it.
\<close>

theorem open_leaves_handle_open:
  "open_fds (snd (snd (registry_open ''data.csv'' (Fs_of [(''data.csv'', [Chunk [1, 2]])])
      new_registry initial_io))) = [0] \<and>
   events (snd (snd (registry_open ''data.csv'' (Fs_of [(''data.csv'', [Chunk [1, 2]])])
      new_registry initial_io))) = [EvOpen ''data.csv'', EvReadAll 0] \<and>
   open_fds (snd (snd (registry_open ''torn.bin''
      (Fs_of [(''torn.bin'', [Chunk [1], Failure [] (Error ''input/output error'')])])
      new_registry initial_io))) = [0] \<and>
   events (snd (snd (registry_open ''torn.bin''
      (Fs_of [(''torn.bin'', [Chunk [1], Failure [] (Error ''input/output error'')])])
      new_registry initial_io))) = [EvOpen ''torn.bin'', EvReadAll 0]"
proof -
  have c: "Clean ''data.csv'' = ''data.csv''" "Clean ''torn.bin'' = ''torn.bin''"
    by (simp_all add: Clean_def)
  show ?thesis
    by (simp add: registry_open_def Fs_Open_def ReadAll_def Fs_of_def c new_registry_def
        initial_io_def Let_def)
qed

subsection \<open>Frame\<close>

text \<open>
  Claim C7. A call of \<open>open\<close> either leaves the registry as it was, or the cleaned path was
  not a key and the registry gains the one entry from the cleaned path to the content that
  the call returns. The entries of all other keys are the same before and after the call.
\<close>

theorem open_frame:
  "(fst (snd (registry_open p fromFs fr w)) = fr \<or>
    openedFiles fr (Clean p) = None \<and>
    (\<exists>d. fst (registry_open p fromFs fr w) = Return (d, None) \<and>
         fst (snd (registry_open p fromFs fr w)) =
           fr\<lparr>openedFiles := (openedFiles fr)(Clean p \<mapsto> ByteSlice d)\<rparr>)) \<and>
   (\<forall>k. k \<noteq> Clean p \<longrightarrow>
      openedFiles (fst (snd (registry_open p fromFs fr w))) k = openedFiles fr k)"
proof -
  have "fst (snd (registry_open p fromFs fr w)) = fr \<or>
    openedFiles fr (Clean p) = None \<and>
    (\<exists>d. fst (registry_open p fromFs fr w) = Return (d, None) \<and>
         fst (snd (registry_open p fromFs fr w)) =
           fr\<lparr>openedFiles := (openedFiles fr)(Clean p \<mapsto> ByteSlice d)\<rparr>)"
    by (cases rule: open_cases [where fr = fr and p = p and fromFs = fromFs])
       (simp_all add: open_hit open_hit_other open_miss_open_failed open_miss_read_failed
          open_miss_success)
  then show ?thesis by (simp add: open_other_keys)
qed

theorem open_frame_witness:
  "fst (snd (registry_open ''b//c'' (Fs_of [(''b/c'', [Chunk [9]])])
      \<lparr>openedFiles = [''a'' \<mapsto> ByteSlice [1]]\<rparr> initial_io)) =
     \<lparr>openedFiles = [''a'' \<mapsto> ByteSlice [1], ''b/c'' \<mapsto> ByteSlice [9]]\<rparr> \<and>
   openedFiles (fst (snd (registry_open ''b//c'' (Fs_of [(''b/c'', [Chunk [9]])])
      \<lparr>openedFiles = [''a'' \<mapsto> ByteSlice [1]]\<rparr> initial_io))) ''a'' = Some (ByteSlice [1]) \<and>
   fst (snd (registry_open ''a'' (Fs_of [])
      \<lparr>openedFiles = [''a'' \<mapsto> ByteSlice [1]]\<rparr> initial_io)) =
     \<lparr>openedFiles = [''a'' \<mapsto> ByteSlice [1]]\<rparr>"
proof -
  have c: "Clean ''b//c'' = ''b/c''" "Clean ''a'' = ''a''"
    by (simp_all add: Clean_def)
  note t = open_frame [where p = "''b//c''" and fromFs = "Fs_of [(''b/c'', [Chunk [9]])]"
      and fr = "\<lparr>openedFiles = [''a'' \<mapsto> ByteSlice [1]]\<rparr>" and w = initial_io]
  have ins: "fst (snd (registry_open ''b//c'' (Fs_of [(''b/c'', [Chunk [9]])])
      \<lparr>openedFiles = [''a'' \<mapsto> ByteSlice [1]]\<rparr> initial_io)) =
     \<lparr>openedFiles = [''a'' \<mapsto> ByteSlice [1], ''b/c'' \<mapsto> ByteSlice [9]]\<rparr>"
    by (simp add: registry_open_def Fs_Open_def ReadAll_def Fs_of_def c Let_def)
  from t have "''a'' \<noteq> Clean ''b//c'' \<longrightarrow>
     openedFiles (fst (snd (registry_open ''b//c'' (Fs_of [(''b/c'', [Chunk [9]])])
      \<lparr>openedFiles = [''a'' \<mapsto> ByteSlice [1]]\<rparr> initial_io))) ''a'' =
     openedFiles \<lparr>openedFiles = [''a'' \<mapsto> ByteSlice [1]]\<rparr> ''a''"
    by blast
  then have other: "openedFiles (fst (snd (registry_open ''b//c'' (Fs_of [(''b/c'', [Chunk [9]])])
      \<lparr>openedFiles = [''a'' \<mapsto> ByteSlice [1]]\<rparr> initial_io))) ''a'' = Some (ByteSlice [1])"
    by (simp add: c)
  have same: "fst (snd (registry_open ''a'' (Fs_of [])
      \<lparr>openedFiles = [''a'' \<mapsto> ByteSlice [1]]\<rparr> initial_io)) =
     \<lparr>openedFiles = [''a'' \<mapsto> ByteSlice [1]]\<rparr>"
    using open_frame [where p = "''a''" and fromFs = "Fs_of []"
      and fr = "\<lparr>openedFiles = [''a'' \<mapsto> ByteSlice [1]]\<rparr>" and w = initial_io]
    by (simp add: c)
  from ins other same show ?thesis by blast
qed

subsection \<open>The panic\<close>

lemma open_keeps_bytes:
  assumes "\<forall>k v. openedFiles fr k = Some v \<longrightarrow> (\<exists>d. v = ByteSlice d)"
  shows "(\<exists>x. fst (registry_open p fromFs fr w) = Return x) \<and>
         (\<forall>k v. openedFiles (fst (snd (registry_open p fromFs fr w))) k = Some v \<longrightarrow>
            (\<exists>d. v = ByteSlice d))"
proof (cases rule: open_cases [where fr = fr and p = p and fromFs = fromFs])
  case (hit d)
  with assms show ?thesis by (simp add: open_hit)
next
  case (other t)
  with assms have False by fastforce
  then show ?thesis ..
next
  case (open_failed err)
  with assms show ?thesis by (simp add: open_miss_open_failed)
next
  case (read_failed rs b err)
  with assms show ?thesis by (simp add: open_miss_read_failed)
next
  case (success rs d)
  with assms show ?thesis by (simp add: open_miss_success)
qed

lemma run_calls_no_panic:
  assumes "\<forall>k v. openedFiles fr k = Some v \<longrightarrow> (\<exists>d. v = ByteSlice d)"
  shows "\<forall>r \<in> set (fst (run_calls cs fr w)). \<exists>x. r = Return x"
  using assms
proof (induction cs arbitrary: fr w)
  case Nil
  then show ?case by simp
next
  case (Cons c cs)
  obtain name fromFs where c: "c = (name, fromFs)" by (cases c)
  obtain r fr1 w1 where o: "registry_open name fromFs fr w = (r, fr1, w1)"
    by (cases "registry_open name fromFs fr w")
  from open_keeps_bytes [OF Cons.prems, of name fromFs w] o
  have r: "\<exists>x. r = Return x"
    and inv: "\<forall>k v. openedFiles fr1 k = Some v \<longrightarrow> (\<exists>d. v = ByteSlice d)"
    by simp_all
  from inv have "\<forall>r \<in> set (fst (run_calls cs fr1 w1)). \<exists>x. r = Return x"
    by (rule Cons.IH)
  with c o r show ?case by (auto split: prod.splits)
qed

text \<open>
  Claim C8. When the value found for the cleaned path is not a byte slice, \<open>open\<close> panics:
  it returns no error, and the registry and the I/O state are untouched. The branch cannot
  be reached through \<open>open\<close> alone: in every sequence of calls that starts from a registry
  whose values are all byte slices, and so from the empty registry, every call returns.
\<close>

theorem open_panic_unreachable:
  "(openedFiles fr (Clean p) = Some (OtherValue t) \<longrightarrow>
      registry_open p fromFs fr w =
        (Panic (''registry's file '' @ Clean p @ '' is not stored as a byte slice''), fr, w)) \<and>
   ((\<forall>k v. openedFiles fr k = Some v \<longrightarrow> (\<exists>d. v = ByteSlice d)) \<longrightarrow>
      (\<forall>r \<in> set (fst (run_calls cs fr w)). \<exists>x. r = Return x)) \<and>
   (\<forall>r \<in> set (fst (run_calls cs new_registry w)). \<exists>x. r = Return x)"
proof -
  have "\<forall>k v. openedFiles new_registry k = Some v \<longrightarrow> (\<exists>d. v = ByteSlice d)"
    by (simp add: new_registry_def)
  then have "\<forall>r \<in> set (fst (run_calls cs new_registry w)). \<exists>x. r = Return x"
    by (rule run_calls_no_panic)
  then show ?thesis
    using run_calls_no_panic [of fr cs w] by (simp add: open_hit_other)
qed

theorem open_panic_unreachable_witness:
  "registry_open ''a'' (Fs_of []) \<lparr>openedFiles = [''a'' \<mapsto> OtherValue ''int'']\<rparr> initial_io =
     (Panic ''registry's file a is not stored as a byte slice'',
      \<lparr>openedFiles = [''a'' \<mapsto> OtherValue ''int'']\<rparr>, initial_io) \<and>
   fst (run_calls [(''a'', Fs_of [(''a'', [Chunk [1]])]), (''a'', Fs_of []), (''b'', Fs_of [])]
      new_registry initial_io) =
     [Return ([1], None), Return ([1], None), Return ([], Some (Error ''file does not exist''))] \<and>
   Panic ''registry's file a is not stored as a byte slice'' \<notin>
     set (fst (run_calls [(''a'', Fs_of [(''a'', [Chunk [1]])]), (''a'', Fs_of []), (''b'', Fs_of [])]
       new_registry initial_io))"
proof -
  have c: "Clean ''a'' = ''a''" "Clean ''b'' = ''b''"
    by (simp_all add: Clean_def)
  note t = open_panic_unreachable [where fr = "\<lparr>openedFiles = [''a'' \<mapsto> OtherValue ''int'']\<rparr>"
      and p = "''a''" and t = "''int''" and fromFs = "Fs_of []" and w = initial_io
      and cs = "[(''a'', Fs_of [(''a'', [Chunk [1]])]), (''a'', Fs_of []), (''b'', Fs_of [])]"]
  from t have panic: "registry_open ''a'' (Fs_of [])
      \<lparr>openedFiles = [''a'' \<mapsto> OtherValue ''int'']\<rparr> initial_io =
     (Panic ''registry's file a is not stored as a byte slice'',
      \<lparr>openedFiles = [''a'' \<mapsto> OtherValue ''int'']\<rparr>, initial_io)"
    by (simp add: c)
  from t have "\<forall>r \<in> set (fst (run_calls
      [(''a'', Fs_of [(''a'', [Chunk [1]])]), (''a'', Fs_of []), (''b'', Fs_of [])]
      new_registry initial_io)). \<exists>x. r = Return x"
    by blast
  then have none: "Panic ''registry's file a is not stored as a byte slice'' \<notin>
     set (fst (run_calls [(''a'', Fs_of [(''a'', [Chunk [1]])]), (''a'', Fs_of []), (''b'', Fs_of [])]
       new_registry initial_io))"
    by blast
  have run: "fst (run_calls [(''a'', Fs_of [(''a'', [Chunk [1]])]), (''a'', Fs_of []), (''b'', Fs_of [])]
      new_registry initial_io) =
     [Return ([1], None), Return ([1], None), Return ([], Some (Error ''file does not exist''))]"
    by (simp add: registry_open_def Fs_Open_def ReadAll_def Fs_of_def c new_registry_def
        initial_io_def Let_def)
  from panic run none show ?thesis by blast
qed

subsection \<open>The empty path\<close>

text \<open>
  Claim C10. Cleaning maps the empty path to \<^verbatim>\<open>.\<close>, which is its own cleaned form, so a
  call with the empty path is the call with the path \<^verbatim>\<open>.\<close> on every source, registry and
  I/O state. The key \<^verbatim>\<open>.\<close> is the only one that the call can change and the only path
  that it can ask the source to open, and it does ask for it when the key is absent.
\<close>

theorem open_empty_path:
  "Clean '''' = ''.'' \<and> Clean ''.'' = ''.'' \<and>
   registry_open '''' fromFs fr w = registry_open ''.'' fromFs fr w \<and>
   (\<forall>k. k \<noteq> ''.'' \<longrightarrow>
      openedFiles (fst (snd (registry_open '''' fromFs fr w))) k = openedFiles fr k \<and>
      opens_of k (snd (snd (registry_open '''' fromFs fr w))) = opens_of k w) \<and>
   (openedFiles fr ''.'' = None \<longrightarrow>
      opens_of ''.'' (snd (snd (registry_open '''' fromFs fr w))) = Suc (opens_of ''.'' w)) \<and>
   (openedFiles fr ''.'' = Some (ByteSlice d) \<longrightarrow>
      registry_open '''' fromFs fr w = (Return (d, None), fr, w))"
proof -
  have c: "Clean '''' = ''.''" "Clean ''.'' = ''.''"
    by (simp_all add: Clean_def)
  have same: "registry_open '''' fromFs fr w = registry_open ''.'' fromFs fr w"
    by (simp add: registry_open_def c)
  have frame: "openedFiles (fst (snd (registry_open '''' fromFs fr w))) k = openedFiles fr k \<and>
      opens_of k (snd (snd (registry_open '''' fromFs fr w))) = opens_of k w" if "k \<noteq> ''.''" for k
    using that open_other_keys [of k "''''" fromFs fr w] open_opens_of [of k "''''" fromFs fr w]
    by (simp add: c)
  have miss: "opens_of ''.'' (snd (snd (registry_open '''' fromFs fr w))) = Suc (opens_of ''.'' w)"
    if "openedFiles fr ''.'' = None"
    using that open_opens_of [of "''.''" "''''" fromFs fr w] by (simp add: c)
  have hit: "registry_open '''' fromFs fr w = (Return (d, None), fr, w)"
    if "openedFiles fr ''.'' = Some (ByteSlice d)"
    using that open_hit [of fr "''''" d fromFs w] by (simp add: c)
  from c same frame miss hit show ?thesis by blast
qed

theorem open_empty_path_witness:
  "registry_open '''' (Fs_of [(''.'', [Failure [] (Error ''read .: is a directory'')])])
      new_registry initial_io =
     (Return ([], Some (Error ''read .: is a directory'')), new_registry,
      \<lparr>events = [EvOpen ''.'', EvReadAll 0], open_fds = [0], next_fd = 1\<rparr>) \<and>
   registry_open ''.'' (Fs_of [(''.'', [Failure [] (Error ''read .: is a directory'')])])
      new_registry initial_io =
     (Return ([], Some (Error ''read .: is a directory'')), new_registry,
      \<lparr>events = [EvOpen ''.'', EvReadAll 0], open_fds = [0], next_fd = 1\<rparr>) \<and>
   opens_of ''.'' (snd (snd (registry_open ''''
      (Fs_of [(''.'', [Failure [] (Error ''read .: is a directory'')])]) new_registry initial_io))) =
     1 \<and>
   opens_of [] (snd (snd (registry_open ''''
      (Fs_of [(''.'', [Failure [] (Error ''read .: is a directory'')])]) new_registry initial_io))) =
     0 \<and>
   registry_open '''' (Fs_of []) \<lparr>openedFiles = [''.'' \<mapsto> ByteSlice [4, 2]]\<rparr> initial_io =
     (Return ([4, 2], None), \<lparr>openedFiles = [''.'' \<mapsto> ByteSlice [4, 2]]\<rparr>, initial_io)"
proof -
  note t = open_empty_path [where fr = new_registry and w = initial_io
      and fromFs = "Fs_of [(''.'', [Failure [] (Error ''read .: is a directory'')])]"]
  have dot: "registry_open ''.'' (Fs_of [(''.'', [Failure [] (Error ''read .: is a directory'')])])
      new_registry initial_io =
     (Return ([], Some (Error ''read .: is a directory'')), new_registry,
      \<lparr>events = [EvOpen ''.'', EvReadAll 0], open_fds = [0], next_fd = 1\<rparr>)"
    by (simp add: registry_open_def Fs_Open_def ReadAll_def Fs_of_def Clean_def new_registry_def
        initial_io_def Let_def)
  from t dot have empty: "registry_open ''''
      (Fs_of [(''.'', [Failure [] (Error ''read .: is a directory'')])]) new_registry initial_io =
     (Return ([], Some (Error ''read .: is a directory'')), new_registry,
      \<lparr>events = [EvOpen ''.'', EvReadAll 0], open_fds = [0], next_fd = 1\<rparr>)"
    by simp
  from t have "openedFiles new_registry ''.'' = None \<longrightarrow> opens_of ''.'' (snd (snd (registry_open ''''
      (Fs_of [(''.'', [Failure [] (Error ''read .: is a directory'')])]) new_registry initial_io))) =
     Suc (opens_of ''.'' initial_io)"
    by blast
  moreover have "openedFiles new_registry ''.'' = None"
    by (simp add: new_registry_def)
  ultimately have one: "opens_of ''.'' (snd (snd (registry_open ''''
      (Fs_of [(''.'', [Failure [] (Error ''read .: is a directory'')])]) new_registry initial_io))) =
     1"
    by (simp add: opens_of_def initial_io_def)
  from t have "[] \<noteq> ''.'' \<longrightarrow> opens_of [] (snd (snd (registry_open ''''
      (Fs_of [(''.'', [Failure [] (Error ''read .: is a directory'')])]) new_registry initial_io))) =
     opens_of [] initial_io"
    by blast
  then have zero: "opens_of [] (snd (snd (registry_open ''''
      (Fs_of [(''.'', [Failure [] (Error ''read .: is a directory'')])]) new_registry initial_io))) =
     0"
    by (simp add: opens_of_def initial_io_def)
  have "openedFiles \<lparr>openedFiles = [''.'' \<mapsto> ByteSlice [4, 2]]\<rparr> ''.'' = Some (ByteSlice [4, 2]) \<longrightarrow>
     registry_open '''' (Fs_of []) \<lparr>openedFiles = [''.'' \<mapsto> ByteSlice [4, 2]]\<rparr> initial_io =
     (Return ([4, 2], None), \<lparr>openedFiles = [''.'' \<mapsto> ByteSlice [4, 2]]\<rparr>, initial_io)"
    using open_empty_path [where fr = "\<lparr>openedFiles = [''.'' \<mapsto> ByteSlice [4, 2]]\<rparr>"
      and w = initial_io and fromFs = "Fs_of []" and d = "[4, 2]"]
    by blast
  then have hit: "registry_open '''' (Fs_of []) \<lparr>openedFiles = [''.'' \<mapsto> ByteSlice [4, 2]]\<rparr> initial_io =
     (Return ([4, 2], None), \<lparr>openedFiles = [''.'' \<mapsto> ByteSlice [4, 2]]\<rparr>, initial_io)"
    by simp
  from empty dot one zero hit show ?thesis by blast
qed

end
